theory Spec2Isabelle
  imports Main
begin

section \<open>Python exceptions and results\<close>

text \<open>
  An exception value carries the name of its class. \<open>Exception cls\<close> is an instance of a
  class \<open>cls\<close> in the subtree of Python's \<open>Exception\<close> (what \<open>except Exception\<close>
  catches); \<open>BaseException cls\<close> is an instance of a class outside that subtree
  (\<open>KeyboardInterrupt\<close>, \<open>SystemExit\<close>, \<open>GeneratorExit\<close>). A call that can raise returns
  \<open>exn + 'a\<close>, with \<open>Inl\<close> for the raised exception.
\<close>

datatype exn = Exception string | BaseException string

type_synonym 'a result = "exn + 'a"

definition NotImplementedError :: exn where
  "NotImplementedError = Exception ''NotImplementedError''"

definition AttributeError :: exn where
  "AttributeError = Exception ''AttributeError''"

definition IntegrityError :: exn where
  "IntegrityError = Exception ''IntegrityError''"

definition ProtectedError :: exn where
  "ProtectedError = Exception ''ProtectedError''"



section \<open>The models of \<open>resources/models.py\<close>\<close>

text \<open>
  Each model class is a record of its declared fields. Inheritance is record extension:
  \<open>model_row\<close> holds the primary key every \<open>models.Model\<close> has, \<open>soft_delete_object\<close>
  adds the deleted flag of the \<open>SoftDeleteObject\<close> mixin, and each model extends the base
  it names in its class statement. Foreign keys hold the primary key of the row they
  reference. A \<open>DecimalField(max_digits=6, decimal_places=2)\<close> is an integer number of
  hundredths, so that products and sums are exact.
\<close>

type_synonym decimal = int

record model_row =
  pk :: nat

record soft_delete_object = model_row +
  deleted :: bool

record user = model_row +
  last_name :: string

record category = model_row +
  slug :: string
  title :: string

record menu_item = soft_delete_object +
  title :: string
  price :: decimal
  featured :: bool
  category :: nat

record order = soft_delete_object +
  user :: nat
  delivery_crew :: "nat option"
  status :: bool
  total :: decimal
  date :: nat

record order_item = soft_delete_object +
  order :: nat
  menuitem :: nat
  quantity :: int
  category :: nat
  unit_price :: decimal
  price :: decimal

record cart = soft_delete_object +
  user :: nat
  menuitem :: nat
  quantity :: int
  unit_price :: decimal
  price :: decimal

text \<open>The relational store: one table (a list of rows) per model.\<close>

record database =
  users :: "user list"
  categories :: "category list"
  menu_items :: "menu_item list"
  orders :: "order list"
  order_items :: "order_item list"
  carts :: "cart list"

definition empty_database :: database where
  "empty_database =
     \<lparr>users = [], categories = [], menu_items = [], orders = [], order_items = [],
      carts = []\<rparr>"

text \<open>
  The classes, and the bases each one names in its class statement
  (\<open>class Category(models.Model)\<close>, \<open>class MenuItem(SoftDeleteObject, models.Model)\<close>, ...).
  \<open>User\<close> stands for \<open>get_user_model()\<close>, a plain model of the framework.
\<close>

datatype model = Category | MenuItem | Order | OrderItem | Cart | User

datatype base = SoftDeleteObject | Model

fun bases :: "model \<Rightarrow> base list" where
  "bases Category = [Model]"
| "bases MenuItem = [SoftDeleteObject, Model]"
| "bases Order = [SoftDeleteObject, Model]"
| "bases OrderItem = [SoftDeleteObject, Model]"
| "bases Cart = [SoftDeleteObject, Model]"
| "bases User = [Model]"

definition soft_deletable :: "model \<Rightarrow> bool" where
  "soft_deletable m = (SoftDeleteObject \<in> set (bases m))"

text \<open>The entities of the data model: the five classes that \<open>models.py\<close> defines.\<close>

definition entities :: "model list" where
  "entities = [Category, MenuItem, Order, OrderItem, Cart]"

section \<open>Cart\<close>

subsection \<open>\<open>Cart.checkout\<close>\<close>

text \<open>
  \<^verbatim>\<open>def checkout(self): raise NotImplementedError\<close>
  The method raises before it touches the store, so the store it leaves is the one it
  was given.
\<close>

definition Cart_checkout :: "cart \<Rightarrow> database \<Rightarrow> unit result \<times> database" where
  "Cart_checkout self s = (Inl NotImplementedError, s)"

definition active_carts :: "nat \<Rightarrow> database \<Rightarrow> cart list" where
  "active_carts u s = filter (\<lambda>c. cart.user c = u \<and> \<not> deleted c) (carts s)"

subsection \<open>Field assignment and \<open>save\<close>\<close>

text \<open>
  \<open>quantity\<close>, \<open>unit_price\<close> and \<open>price\<close> are three independent columns; \<open>Cart\<close>
  overrides neither \<open>__setattr__\<close> nor \<open>save\<close>, so assigning one field changes that
  field only.
\<close>

definition Cart_set_quantity :: "int \<Rightarrow> cart \<Rightarrow> cart" where
  "Cart_set_quantity q self = self\<lparr>cart.quantity := q\<rparr>"

definition Cart_set_unit_price :: "decimal \<Rightarrow> cart \<Rightarrow> cart" where
  "Cart_set_unit_price p self = self\<lparr>cart.unit_price := p\<rparr>"

definition cart_key :: "cart \<Rightarrow> nat \<times> nat" where
  "cart_key c = (cart.menuitem c, cart.user c)"

text \<open>
  \<open>Model.save\<close> for a cart: the store rejects the write with \<open>IntegrityError\<close> when a
  foreign key points at no row, or when another row (deleted or not: the constraint is on
  the table) already holds the pair of \<open>unique_together = ("menuitem", "user")\<close>.
  Otherwise the row with the instance's primary key is replaced, or the instance is
  inserted when no row has that key. A rejected write leaves the store as it was.
\<close>

definition Cart_save :: "cart \<Rightarrow> database \<Rightarrow> unit result \<times> database" where
  "Cart_save self s =
     (if cart.user self \<notin> pk ` set (users s) \<or> cart.menuitem self \<notin> pk ` set (menu_items s)
      then (Inl IntegrityError, s)
      else if \<exists>r \<in> set (carts s). pk r \<noteq> pk self \<and> cart_key r = cart_key self
      then (Inl IntegrityError, s)
      else if pk self \<in> pk ` set (carts s)
      then (Inr (), s\<lparr>carts := map (\<lambda>r. if pk r = pk self then self else r) (carts s)\<rparr>)
      else (Inr (), s\<lparr>carts := carts s @ [self]\<rparr>))"

text \<open>Physical removal of the cart row with a given primary key.\<close>

definition Cart_erase :: "nat \<Rightarrow> database \<Rightarrow> unit result \<times> database" where
  "Cart_erase k s = (Inr (), s\<lparr>carts := filter (\<lambda>r. pk r \<noteq> k) (carts s)\<rparr>)"

subsection \<open>\<open>Cart.reset_cart\<close>\<close>






text \<open>
  The ways the cart table changes: a \<open>save\<close> (insert or update, which is also how a
  flag is persisted), the physical removal of a row, and the cascade from a deleted user
  (defined below).
\<close>

datatype cart_op = Save cart | Erase nat | DeleteUser nat

section \<open>Foreign keys and deletion\<close>

text \<open>
  The \<open>on_delete\<close> policies the source declares:
  \<^item> \<open>MenuItem.category\<close>, \<open>OrderItem.category\<close>: \<open>PROTECT\<close>;
  \<^item> \<open>Order.user\<close>, \<open>Cart.user\<close>, \<open>Cart.menuitem\<close>, \<open>OrderItem.order\<close>,
    \<open>OrderItem.menuitem\<close>: \<open>CASCADE\<close>;
  \<^item> \<open>Order.delivery_crew\<close>: \<open>SET_NULL\<close>.
\<close>

datatype on_delete = CASCADE | PROTECT | SET_NULL

datatype field_ref =
    MenuItem_category | OrderItem_category | Order_user | Order_delivery_crew
  | OrderItem_order | OrderItem_menuitem | Cart_user | Cart_menuitem

fun on_delete_of :: "field_ref \<Rightarrow> on_delete" where
  "on_delete_of MenuItem_category = PROTECT"
| "on_delete_of OrderItem_category = PROTECT"
| "on_delete_of Order_user = CASCADE"
| "on_delete_of Order_delivery_crew = SET_NULL"
| "on_delete_of OrderItem_order = CASCADE"
| "on_delete_of OrderItem_menuitem = CASCADE"
| "on_delete_of Cart_user = CASCADE"
| "on_delete_of Cart_menuitem = CASCADE"

text \<open>
  \<open>Category\<close> is a plain model, so its \<open>delete\<close> is \<open>Model.delete\<close>. Both keys that
  point at a category are \<open>PROTECT\<close>: when a menu item or an order item holds the
  category's key, the delete raises \<open>ProtectedError\<close> (the framework's referential
  integrity error) and nothing is written; otherwise the row is erased.
\<close>

definition category_referenced :: "nat \<Rightarrow> database \<Rightarrow> bool" where
  "category_referenced k s =
     ((\<exists>m \<in> set (menu_items s). menu_item.category m = k) \<or>
      (\<exists>i \<in> set (order_items s). order_item.category i = k))"

definition Category_delete :: "nat \<Rightarrow> database \<Rightarrow> unit result \<times> database" where
  "Category_delete k s =
     (if category_referenced k s then (Inl ProtectedError, s)
      else (Inr (), s\<lparr>categories := filter (\<lambda>c. pk c \<noteq> k) (categories s)\<rparr>))"

text \<open>
  Deleting the user with key \<open>u\<close>. The orders and carts whose \<open>user\<close> is \<open>u\<close> are
  erased (\<open>CASCADE\<close>), and with the orders their order items (\<open>OrderItem.order\<close> is
  \<open>CASCADE\<close>); on the orders that stay, a \<open>delivery_crew\<close> equal to \<open>u\<close> becomes
  null (\<open>SET_NULL\<close>). No \<open>PROTECT\<close> key points at a user, an order, an order item or a
  cart, so the delete is never refused.
\<close>

definition User_delete :: "nat \<Rightarrow> database \<Rightarrow> unit result \<times> database" where
  "User_delete u s =
     (let gone = map pk (filter (\<lambda>r. order.user r = u) (orders s))
      in (Inr (),
          s\<lparr>users := filter (\<lambda>x. pk x \<noteq> u) (users s),
            orders := map (\<lambda>r. if delivery_crew r = Some u then r\<lparr>delivery_crew := None\<rparr> else r)
                        (filter (\<lambda>r. order.user r \<noteq> u) (orders s)),
            order_items := filter (\<lambda>i. order_item.order i \<notin> set gone) (order_items s),
            carts := filter (\<lambda>c. cart.user c \<noteq> u) (carts s)\<rparr>))"

text \<open>Running cart-table operations; a refused one leaves the store as it was.\<close>

fun apply_cart_op :: "cart_op \<Rightarrow> database \<Rightarrow> database" where
  "apply_cart_op (Save c) s = snd (Cart_save c s)"
| "apply_cart_op (Erase k) s = snd (Cart_erase k s)"
| "apply_cart_op (DeleteUser u) s = snd (User_delete u s)"

fun run_cart_ops :: "cart_op list \<Rightarrow> database \<Rightarrow> database" where
  "run_cart_ops [] s = s"
| "run_cart_ops (x # xs) s = run_cart_ops xs (apply_cart_op x s)"

definition active_pair_rows :: "nat \<Rightarrow> nat \<Rightarrow> database \<Rightarrow> cart list" where
  "active_pair_rows u m s =
     filter (\<lambda>c. cart.user c = u \<and> cart.menuitem c = m \<and> \<not> deleted c) (carts s)"

text \<open>
  The two constraints the cart table is created with: the primary key is unique, and so is
  the pair of \<open>unique_together\<close>. Both range over every row, deleted or not.
\<close>

definition cart_table_ok :: "cart list \<Rightarrow> bool" where
  "cart_table_ok t = (distinct (map pk t) \<and> distinct (map cart_key t))"

section \<open>\<open>OrderItem.__str__\<close>\<close>

text \<open>
  \<^verbatim>\<open>def __str__(self) -> str: return str(self.title)\<close>
  The attribute table of an order item holds the primary key, the mixin's flag and the six
  fields the class declares (a foreign key also under its \<open>_id\<close> name). The bases
  contribute further names (methods such as \<open>save\<close> and \<open>delete\<close>, managers, the
  mixin's own columns), which the table leaves out; none of them is \<open>title\<close>. A name
  that is not found raises \<open>AttributeError\<close>. The builtin \<open>str\<close> is a parameter.
\<close>

datatype pyval = PyInt int | PyBool bool | PyDecimal decimal | PyRef model nat

definition OrderItem_getattr :: "order_item \<Rightarrow> string \<Rightarrow> pyval result" where
  "OrderItem_getattr self name =
     (if name = ''id'' \<or> name = ''pk'' then Inr (PyInt (int (pk self)))
      else if name = ''deleted'' then Inr (PyBool (deleted self))
      else if name = ''order'' then Inr (PyRef Order (order_item.order self))
      else if name = ''order_id'' then Inr (PyInt (int (order_item.order self)))
      else if name = ''menuitem'' then Inr (PyRef MenuItem (order_item.menuitem self))
      else if name = ''menuitem_id'' then Inr (PyInt (int (order_item.menuitem self)))
      else if name = ''quantity'' then Inr (PyInt (order_item.quantity self))
      else if name = ''category'' then Inr (PyRef Category (order_item.category self))
      else if name = ''category_id'' then Inr (PyInt (int (order_item.category self)))
      else if name = ''unit_price'' then Inr (PyDecimal (order_item.unit_price self))
      else if name = ''price'' then Inr (PyDecimal (order_item.price self))
      else Inl AttributeError)"

definition OrderItem_str :: "(pyval \<Rightarrow> string) \<Rightarrow> order_item \<Rightarrow> string result" where
  "OrderItem_str str self =
     (case OrderItem_getattr self ''title'' of
        Inl e \<Rightarrow> Inl e
      | Inr v \<Rightarrow> Inr (str v))"

section \<open>\<open>resources/admin.py\<close>\<close>

text \<open>
  \<^verbatim>\<open>for model in [Cart, Category, Order, OrderItem, get_user_model()]:
    admin.register(model)\<close>
  The loop hands each element of its list to \<open>admin.register\<close>; \<open>admin_py\<close> is the list
  of models handed over, in order, after the ones in \<open>reg\<close>.
\<close>

fun register_loop :: "model list \<Rightarrow> model list \<Rightarrow> model list" where
  "register_loop [] reg = reg"
| "register_loop (m # ms) reg = register_loop ms (reg @ [m])"

definition admin_py :: "model list" where
  "admin_py = register_loop [Cart, Category, Order, OrderItem, User] []"

section \<open>Soft deletion\<close>

text \<open>
  Modelled from the spec: \<open>SoftDeleteObject.delete\<close> and the default manager. They are
  defined in the \<open>softdelete\<close> package that \<open>models.py\<close> imports, which is not among
  the sources. The definitions follow section 4.1 of the specification: delete does not
  remove the record, it flags it and persists the flag; it never raises for a record that
  is already deleted; a failing write is surfaced to the caller; default retrieval leaves
  the deleted records out unless the caller asks for them. \<open>failure\<close> is what the store's
  write raises, if it does. The log entry of a failed write is left out.
\<close>

definition SoftDeleteObject_delete ::
  "exn option \<Rightarrow> 'a soft_delete_object_scheme \<Rightarrow> 'a soft_delete_object_scheme list
     \<Rightarrow> unit result \<times> 'a soft_delete_object_scheme \<times> 'a soft_delete_object_scheme list" where
  "SoftDeleteObject_delete failure self tbl =
     (if deleted self then (Inr (), self, tbl)
      else case failure of
             Some e \<Rightarrow> (Inl e, self, tbl)
           | None \<Rightarrow> (Inr (), self\<lparr>deleted := True\<rparr>,
                      map (\<lambda>r. if pk r = pk self then r\<lparr>deleted := True\<rparr> else r) tbl))"

definition objects :: "'a soft_delete_object_scheme list \<Rightarrow> 'a soft_delete_object_scheme list" where
  "objects tbl = filter (\<lambda>r. \<not> deleted r) tbl"

definition all_with_deleted :: "'a soft_delete_object_scheme list \<Rightarrow> 'a soft_delete_object_scheme list" where
  "all_with_deleted tbl = tbl"

text \<open>
  \<open>delete\<close> as each class resolves it: the four classes that list \<open>SoftDeleteObject\<close>
  first inherit its \<open>delete\<close>, applied to their own table; \<open>Category\<close> has
  \<open>Category_delete\<close> above.
\<close>

definition MenuItem_delete ::
  "exn option \<Rightarrow> menu_item \<Rightarrow> database \<Rightarrow> unit result \<times> menu_item \<times> database" where
  "MenuItem_delete failure self s =
     (case SoftDeleteObject_delete failure self (menu_items s) of
        (r, self', tbl) \<Rightarrow> (r, self', s\<lparr>menu_items := tbl\<rparr>))"

definition Order_delete ::
  "exn option \<Rightarrow> order \<Rightarrow> database \<Rightarrow> unit result \<times> order \<times> database" where
  "Order_delete failure self s =
     (case SoftDeleteObject_delete failure self (orders s) of
        (r, self', tbl) \<Rightarrow> (r, self', s\<lparr>orders := tbl\<rparr>))"

definition OrderItem_delete ::
  "exn option \<Rightarrow> order_item \<Rightarrow> database \<Rightarrow> unit result \<times> order_item \<times> database" where
  "OrderItem_delete failure self s =
     (case SoftDeleteObject_delete failure self (order_items s) of
        (r, self', tbl) \<Rightarrow> (r, self', s\<lparr>order_items := tbl\<rparr>))"

definition Cart_delete ::
  "exn option \<Rightarrow> cart \<Rightarrow> database \<Rightarrow> unit result \<times> cart \<times> database" where
  "Cart_delete failure self s =
     (case SoftDeleteObject_delete failure self (carts s) of
        (r, self', tbl) \<Rightarrow> (r, self', s\<lparr>carts := tbl\<rparr>))"

text \<open>
  What a soft delete leaves behind in a table: the record is still stored, with its flag
  set and every other field as it was; the table has the same rows, by primary key and in
  the same order, so none was removed; the default manager does not return the record,
  the unfiltered one does; and the rows with another primary key are as they were.
\<close>

definition flagged_not_erased ::
  "'a soft_delete_object_scheme \<Rightarrow> 'a soft_delete_object_scheme list
     \<Rightarrow> 'a soft_delete_object_scheme list \<Rightarrow> bool" where
  "flagged_not_erased self tbl tbl' =
     (self\<lparr>deleted := True\<rparr> \<in> set (all_with_deleted tbl') \<and>
      map pk tbl' = map pk tbl \<and>
      (\<forall>r \<in> set (objects tbl'). pk r \<noteq> pk self) \<and>
      filter (\<lambda>r. pk r \<noteq> pk self) tbl' = filter (\<lambda>r. pk r \<noteq> pk self) tbl)"

section \<open>Example data\<close>

text \<open>
  A small store: two users, two categories, one menu item in the first category, one cart
  row of user 1, and two orders delivered by user 1, the first of them also owned by
  user 1.
\<close>

definition example_cart :: cart where
  "example_cart =
     \<lparr>pk = 1, deleted = False, user = 1, menuitem = 1, quantity = 2, unit_price = 500,
      price = 1000\<rparr>"

definition example_own_order :: order where
  "example_own_order =
     \<lparr>pk = 1, deleted = False, order.user = 1, delivery_crew = Some 1, status = False,
      total = 1000, date = 0\<rparr>"

definition example_other_order :: order where
  "example_other_order =
     \<lparr>pk = 2, deleted = False, order.user = 2, delivery_crew = Some 1, status = False,
      total = 500, date = 0\<rparr>"

definition example_category :: category where
  "example_category = \<lparr>pk = 1, slug = ''mains'', category.title = ''Mains''\<rparr>"

definition example_menu_item :: menu_item where
  "example_menu_item =
     \<lparr>pk = 1, deleted = False, menu_item.title = ''Soup'', menu_item.price = 500,
      featured = False, menu_item.category = 1\<rparr>"

definition example_store :: database where
  "example_store =
     \<lparr>users = [\<lparr>pk = 1, last_name = ''Doe''\<rparr>, \<lparr>pk = 2, last_name = ''Roe''\<rparr>],
      categories = [example_category, \<lparr>pk = 2, slug = ''sides'', category.title = ''Sides''\<rparr>],
      menu_items = [example_menu_item],
      orders = [example_own_order, example_other_order],
      order_items = [],
      carts = [example_cart]\<rparr>"

text \<open>The same store with one order item, of the second order and the first category.\<close>

definition example_order_item :: order_item where
  "example_order_item =
     \<lparr>pk = 1, deleted = False, order = 2, order_item.menuitem = 1, order_item.quantity = 1,
      order_item.category = 1, order_item.unit_price = 500, order_item.price = 500\<rparr>"

definition example_store_with_item :: database where
  "example_store_with_item = example_store\<lparr>order_items := [example_order_item]\<rparr>"

text \<open>A store with no order, whose only cart row is already deleted.\<close>

definition example_deleted_cart_store :: database where
  "example_deleted_cart_store =
     example_store\<lparr>orders := [], carts := [example_cart\<lparr>deleted := True\<rparr>]\<rparr>"




section \<open>Checkout\<close>

text \<open>
  C1, as stated: checking out when the user has no active cart row fails with
  \<open>EmptyCartError\<close>. On the empty store the user of \<open>example_cart\<close> has no active
  cart row, and the exception \<open>checkout\<close> raises is not \<open>EmptyCartError\<close>.
\<close>

theorem checkout_empty_cart_counterexample:
  "active_carts 1 empty_database = [] \<and>
   fst (Cart_checkout example_cart empty_database) \<noteq> Inl (Exception ''EmptyCartError'')"
  by (simp add: active_carts_def empty_database_def Cart_checkout_def NotImplementedError_def)

text \<open>
  C1, amended: for every cart and every store, whether the user has active cart rows or
  not, \<open>checkout\<close> fails with \<open>NotImplementedError\<close> and leaves the store, hence the
  Order, OrderItem and Cart rows, as they were.
\<close>

theorem checkout_not_implemented:
  "fst (Cart_checkout self s) = Inl (Exception ''NotImplementedError'') \<and>
   snd (Cart_checkout self s) = s"
  by (simp add: Cart_checkout_def NotImplementedError_def)

section \<open>Cart price\<close>

text \<open>
  C2, as stated: after every mutation of quantity or unit price, a cart row's price is
  unit price times quantity. Setting the quantity of \<open>example_cart\<close> (2 at 5.00, price
  10.00) to 3 leaves the price at 10.00, and \<open>save\<close> stores the row that way.
\<close>

theorem cart_price_counterexample:
  "cart.price (Cart_set_quantity 3 example_cart)
     \<noteq> cart.unit_price (Cart_set_quantity 3 example_cart)
         * cart.quantity (Cart_set_quantity 3 example_cart) \<and>
   Cart_save (Cart_set_quantity 3 example_cart) example_store
     = (Inr (), example_store\<lparr>carts := [example_cart\<lparr>cart.quantity := 3\<rparr>]\<rparr>)"
  by (simp add: Cart_set_quantity_def example_cart_def example_store_def example_menu_item_def
      Cart_save_def cart_key_def)

text \<open>
  C2, amended: assigning quantity or unit price leaves the stored price as it was; the
  price equals unit price times quantity afterwards exactly when the old price already
  equals the new product.
\<close>

theorem cart_price_not_recomputed:
  "cart.price (Cart_set_quantity q self) = cart.price self \<and>
   cart.price (Cart_set_unit_price p self) = cart.price self \<and>
   (cart.price (Cart_set_quantity q self)
      = cart.unit_price (Cart_set_quantity q self) * cart.quantity (Cart_set_quantity q self))
     = (cart.price self = cart.unit_price self * q) \<and>
   (cart.price (Cart_set_unit_price p self)
      = cart.unit_price (Cart_set_unit_price p self) * cart.quantity (Cart_set_unit_price p self))
     = (cart.price self = p * cart.quantity self)"
  by (simp add: Cart_set_quantity_def Cart_set_unit_price_def)

section \<open>Admin registration\<close>

text \<open>
  C3: every entity is handed to the administrative interface. \<open>MenuItem\<close> is an entity
  and is not in the list the loop of \<open>admin.py\<close> goes through.
\<close>

theorem admin_omits_menu_item:
  "MenuItem \<in> set entities \<and> MenuItem \<notin> set admin_py \<and>
   admin_py = [Cart, Category, Order, OrderItem, User]"
  by (simp add: entities_def admin_py_def)

section \<open>String conversion of an order item\<close>

text \<open>
  C10: for every order item, \<open>__str__\<close> raises: it reads \<open>self.title\<close>, which an
  order item does not have, so the conversion never returns a string.
\<close>

theorem order_item_str_raises:
  "OrderItem_str str self = Inl (Exception ''AttributeError'')"
  by (simp add: OrderItem_str_def OrderItem_getattr_def AttributeError_def)

section \<open>Deleting a referenced category\<close>

text \<open>
  C5: deleting a category that a menu item or an order item still references is refused
  with the referential integrity error (\<open>ProtectedError\<close>), nothing is written, and the
  category is still in its table afterwards.
\<close>

theorem category_delete_protected:
  assumes "c \<in> set (categories s)"
    and "(\<exists>m \<in> set (menu_items s). menu_item.category m = pk c) \<or>
         (\<exists>i \<in> set (order_items s). order_item.category i = pk c)"
  shows "fst (Category_delete (pk c) s) = Inl (Exception ''ProtectedError'') \<and>
         snd (Category_delete (pk c) s) = s \<and>
         c \<in> set (categories (snd (Category_delete (pk c) s)))"
  using assms by (simp add: Category_delete_def category_referenced_def ProtectedError_def)

theorem category_delete_protected_witness:
  "example_category \<in> set (categories example_store) \<and>
   menu_item.category example_menu_item = pk example_category \<and>
   fst (Category_delete 1 example_store) = Inl (Exception ''ProtectedError'') \<and>
   snd (Category_delete 1 example_store) = example_store \<and>
   example_category \<in> set (categories (snd (Category_delete 1 example_store)))"
proof -
  have a: "example_category \<in> set (categories example_store)"
    by (simp add: example_store_def)
  have k: "pk example_category = 1"
    by (simp add: example_category_def)
  have b: "(\<exists>m \<in> set (menu_items example_store). menu_item.category m = pk example_category) \<or>
           (\<exists>i \<in> set (order_items example_store). order_item.category i = pk example_category)"
    by (simp add: example_store_def example_menu_item_def example_category_def)
  have m: "menu_item.category example_menu_item = pk example_category"
    by (simp add: example_menu_item_def example_category_def)
  show ?thesis
    using category_delete_protected [OF a b] a m by (simp add: k)
qed

section \<open>Deleting a user\<close>

text \<open>
  C9, as stated: for every order, deleting the user referenced as delivery crew nulls the
  reference and the order survives. \<open>example_own_order\<close> is owned and delivered by
  user 1; after deleting user 1 it is gone (the cascade from its owner wins), and only the
  other order is left, with its delivery crew null.
\<close>

theorem user_delete_own_delivery_counterexample:
  "example_own_order \<in> set (orders example_store) \<and>
   delivery_crew example_own_order = Some 1 \<and>
   orders (snd (User_delete 1 example_store)) = [example_other_order\<lparr>delivery_crew := None\<rparr>] \<and>
   example_own_order\<lparr>delivery_crew := None\<rparr> \<notin> set (orders (snd (User_delete 1 example_store)))"
  by (simp add: example_store_def example_own_order_def example_other_order_def User_delete_def)

text \<open>
  The orders left after a user is deleted have the keys of the orders that user did not
  own; and in a table with distinct keys a row is determined by its key.
\<close>

lemma user_delete_order_keys:
  "map pk (orders (snd (User_delete u s)))
     = map pk (filter (\<lambda>x. order.user x \<noteq> u) (orders s))"
  by (simp add: User_delete_def Let_def comp_def if_distrib cong: if_cong)

lemma distinct_key_unique:
  assumes "distinct (map f xs)" and "x \<in> set xs" and "y \<in> set xs" and "f x = f y"
  shows "x = y"
  using assms by (meson distinct_map inj_on_def)

text \<open>
  C9, amended: in an order table with distinct primary keys, deleting a user is never
  refused and leaves exactly the orders, by primary key, that the user did not own. An
  order owned by that user is deleted: no order with its key is left. An order owned by
  someone else whose delivery crew is that user survives with the reference null and
  every other field unchanged, and is the only order with its key; any other order
  survives untouched.
\<close>

theorem user_delete_orders:
  assumes "r \<in> set (orders s)" and "distinct (map pk (orders s))"
  shows "fst (User_delete u s) = Inr () \<and>
         map pk (orders (snd (User_delete u s)))
           = map pk (filter (\<lambda>x. order.user x \<noteq> u) (orders s)) \<and>
         (order.user r = u \<longrightarrow>
            pk r \<notin> pk ` set (orders (snd (User_delete u s))) \<and>
            r \<notin> set (orders (snd (User_delete u s))) \<and>
            r\<lparr>delivery_crew := None\<rparr> \<notin> set (orders (snd (User_delete u s)))) \<and>
         (order.user r \<noteq> u \<and> delivery_crew r = Some u \<longrightarrow>
            r\<lparr>delivery_crew := None\<rparr> \<in> set (orders (snd (User_delete u s))) \<and>
            (\<forall>x \<in> set (orders (snd (User_delete u s))).
               pk x = pk r \<longrightarrow> x = r\<lparr>delivery_crew := None\<rparr>)) \<and>
         (order.user r \<noteq> u \<and> delivery_crew r \<noteq> Some u \<longrightarrow>
            r \<in> set (orders (snd (User_delete u s))) \<and>
            (\<forall>x \<in> set (orders (snd (User_delete u s))). pk x = pk r \<longrightarrow> x = r))"
proof -
  let ?after = "orders (snd (User_delete u s))"
  let ?g = "\<lambda>x. if delivery_crew x = Some u then x\<lparr>delivery_crew := None\<rparr> else x"
  have after: "?after = map ?g (filter (\<lambda>x. order.user x \<noteq> u) (orders s))"
    by (simp add: User_delete_def Let_def)
  have keys: "map pk ?after = map pk (filter (\<lambda>x. order.user x \<noteq> u) (orders s))"
    by (rule user_delete_order_keys)
  have ok: "fst (User_delete u s) = Inr ()"
    by (simp add: User_delete_def Let_def)
  have uniq: "y = r" if "y \<in> set (orders s)" "pk y = pk r" for y
    using distinct_key_unique [OF assms(2) that(1) assms(1) that(2)] .
  have gone: "pk r \<notin> pk ` set ?after" if "order.user r = u"
  proof
    assume "pk r \<in> pk ` set ?after"
    then have "pk r \<in> set (map pk ?after)" by simp
    then have "pk r \<in> pk ` set (filter (\<lambda>x. order.user x \<noteq> u) (orders s))"
      by (simp only: keys set_map)
    then obtain y where y: "y \<in> set (orders s)" "order.user y \<noteq> u" "pk y = pk r"
      by auto
    from uniq [OF y(1) y(3)] y(2) that show False by simp
  qed
  have gone': "r \<notin> set ?after \<and> r\<lparr>delivery_crew := None\<rparr> \<notin> set ?after"
    if "order.user r = u"
  proof -
    have "pk x \<noteq> pk r" if "x \<in> set ?after" for x
      using gone [OF \<open>order.user r = u\<close>] that by (metis imageI)
    then show ?thesis by fastforce
  qed
  have only: "x = ?g r" if "order.user r \<noteq> u" "x \<in> set ?after" "pk x = pk r" for x
  proof -
    from that(2) obtain y where y: "y \<in> set (orders s)" "order.user y \<noteq> u" "x = ?g y"
      unfolding after by auto
    then have "pk y = pk x" by simp
    with that(3) have "pk y = pk r" by simp
    from uniq [OF y(1) this] y(3) show ?thesis by simp
  qed
  have stays: "?g r \<in> set ?after" if "order.user r \<noteq> u"
  proof -
    have "r \<in> set (filter (\<lambda>x. order.user x \<noteq> u) (orders s))"
      using assms(1) that by simp
    then have "?g r \<in> ?g ` set (filter (\<lambda>x. order.user x \<noteq> u) (orders s))"
      by (rule imageI)
    then show ?thesis by (simp only: after set_map)
  qed
  show ?thesis
  proof (intro conjI impI ballI)
    show "fst (User_delete u s) = Inr ()" by (rule ok)
    show "map pk ?after = map pk (filter (\<lambda>x. order.user x \<noteq> u) (orders s))" by (rule keys)
  next
    assume "order.user r = u"
    then show "pk r \<notin> pk ` set ?after" by (rule gone)
  next
    assume "order.user r = u"
    then show "r \<notin> set ?after" using gone' by simp
  next
    assume "order.user r = u"
    then show "r\<lparr>delivery_crew := None\<rparr> \<notin> set ?after" using gone' by simp
  next
    assume a: "order.user r \<noteq> u \<and> delivery_crew r = Some u"
    then show "r\<lparr>delivery_crew := None\<rparr> \<in> set ?after" using stays by auto
  next
    fix x assume a: "order.user r \<noteq> u \<and> delivery_crew r = Some u"
      and "x \<in> set ?after" "pk x = pk r"
    then show "x = r\<lparr>delivery_crew := None\<rparr>" using only [of x] by simp
  next
    assume a: "order.user r \<noteq> u \<and> delivery_crew r \<noteq> Some u"
    then show "r \<in> set ?after" using stays by auto
  next
    fix x assume a: "order.user r \<noteq> u \<and> delivery_crew r \<noteq> Some u"
      and "x \<in> set ?after" "pk x = pk r"
    then show "x = r" using only [of x] by simp
  qed
qed

theorem user_delete_orders_witness:
  "example_other_order \<in> set (orders example_store) \<and>
   example_own_order \<in> set (orders example_store) \<and>
   distinct (map pk (orders example_store)) \<and>
   order.user example_other_order \<noteq> 1 \<and> delivery_crew example_other_order = Some 1 \<and>
   example_other_order\<lparr>delivery_crew := None\<rparr> \<in> set (orders (snd (User_delete 1 example_store))) \<and>
   order.user example_own_order = 1 \<and>
   pk example_own_order \<notin> pk ` set (orders (snd (User_delete 1 example_store))) \<and>
   map pk (orders (snd (User_delete 1 example_store))) = [2] \<and>
   order.user example_other_order = 2 \<and>
   pk example_other_order \<notin> pk ` set (orders (snd (User_delete 2 example_store)))"
proof -
  have a: "example_other_order \<in> set (orders example_store)"
    and a': "example_own_order \<in> set (orders example_store)"
    by (simp_all add: example_store_def)
  have d: "distinct (map pk (orders example_store))"
    by (simp add: example_store_def example_own_order_def example_other_order_def)
  have b: "order.user example_other_order = 2 \<and> delivery_crew example_other_order = Some 1"
    "order.user example_own_order = 1"
    by (simp_all add: example_other_order_def example_own_order_def)
  have k: "map pk (filter (\<lambda>x. order.user x \<noteq> 1) (orders example_store)) = [2]"
    by (simp add: example_store_def example_own_order_def example_other_order_def)
  show ?thesis
    using user_delete_orders [OF a d, of 1] user_delete_orders [OF a d, of 2]
      user_delete_orders [OF a' d, of 1] a a' d b k
    by simp
qed

section \<open>Resetting a cart\<close>




section \<open>One active cart row per user and menu item\<close>

text \<open>
  Replacing the row that has the primary key of \<open>c\<close> keeps the primary keys of the
  table, and keeps the pairs distinct when no other row holds the pair of \<open>c\<close>.
\<close>

lemma replace_row_pks:
  "map pk (map (\<lambda>r. if pk r = pk c then c else r) t) = map pk t"
  by (induction t) auto

lemma replace_row_absent:
  "pk c \<notin> pk ` set t \<Longrightarrow> map (\<lambda>r. if pk r = pk c then c else r) t = t"
  by (induction t) auto

lemma replace_row_keys:
  assumes "distinct (map pk t)" and "distinct (map cart_key t)"
    and "\<forall>r \<in> set t. pk r \<noteq> pk c \<longrightarrow> cart_key r \<noteq> cart_key c"
  shows "distinct (map cart_key (map (\<lambda>r. if pk r = pk c then c else r) t))"
  using assms
proof (induction t)
  case Nil
  then show ?case by simp
next
  case (Cons x t)
  show ?case
  proof (cases "pk x = pk c")
    case True
    with Cons.prems have "pk c \<notin> pk ` set t" by auto
    then have same: "map (\<lambda>r. if pk r = pk c then c else r) t = t"
      by (rule replace_row_absent)
    have "cart_key c \<notin> cart_key ` set t"
    proof
      assume "cart_key c \<in> cart_key ` set t"
      then obtain r where r: "r \<in> set t" "cart_key r = cart_key c"
        by auto
      with \<open>pk c \<notin> pk ` set t\<close> have "pk r \<noteq> pk c"
        by (metis imageI)
      moreover have "pk r \<noteq> pk c \<longrightarrow> cart_key r \<noteq> cart_key c"
        using Cons.prems(3) r(1) by simp
      ultimately show False
        using r(2) by simp
    qed
    with Cons.prems True same show ?thesis by simp
  next
    case False
    have ih: "distinct (map cart_key (map (\<lambda>r. if pk r = pk c then c else r) t))"
      using Cons by simp
    have ne: "cart_key x \<noteq> cart_key c"
      using Cons.prems False by simp
    have fresh: "cart_key x \<notin> cart_key ` set t"
      using Cons.prems by auto
    have "cart_key x \<notin> (\<lambda>r. cart_key (if pk r = pk c then c else r)) ` set t"
    proof
      assume "cart_key x \<in> (\<lambda>r. cart_key (if pk r = pk c then c else r)) ` set t"
      then obtain r where r: "r \<in> set t"
          "cart_key x = cart_key (if pk r = pk c then c else r)"
        by blast
      show False
      proof (cases "pk r = pk c")
        case True
        with r(2) have "cart_key x = cart_key c" by simp
        with ne show False by simp
      next
        case False
        with r(2) have "cart_key x = cart_key r" by simp
        with r(1) have "cart_key x \<in> cart_key ` set t" by simp
        with fresh show False by simp
      qed
    qed
    with ih False show ?thesis by (simp add: comp_def)
  qed
qed

lemma cart_save_ok:
  assumes "cart_table_ok (carts s)"
  shows "cart_table_ok (carts (snd (Cart_save c s)))"
proof (cases "cart.user c \<notin> pk ` set (users s) \<or> cart.menuitem c \<notin> pk ` set (menu_items s)")
  case True
  then have "snd (Cart_save c s) = s"
    by (simp add: Cart_save_def)
  with assms show ?thesis by simp
next
  case fk: False
  show ?thesis
  proof (cases "\<exists>r \<in> set (carts s). pk r \<noteq> pk c \<and> cart_key r = cart_key c")
    case True
    then have "Cart_save c s = (Inl IntegrityError, s)"
      unfolding Cart_save_def by (simp only: fk True if_False if_True)
    then have "snd (Cart_save c s) = s" by simp
    with assms show ?thesis by simp
  next
    case uniq: False
    then have others: "\<forall>r \<in> set (carts s). pk r \<noteq> pk c \<longrightarrow> cart_key r \<noteq> cart_key c"
      by blast
    show ?thesis
    proof (cases "pk c \<in> pk ` set (carts s)")
      case True
      have "Cart_save c s
              = (Inr (), s\<lparr>carts := map (\<lambda>r. if pk r = pk c then c else r) (carts s)\<rparr>)"
        unfolding Cart_save_def by (simp only: fk uniq True if_False if_True)
      then have "carts (snd (Cart_save c s))
                   = map (\<lambda>r. if pk r = pk c then c else r) (carts s)"
        by simp
      moreover have "distinct (map pk (map (\<lambda>r. if pk r = pk c then c else r) (carts s)))"
        using assms by (simp only: replace_row_pks cart_table_ok_def)
      moreover have "distinct (map cart_key (map (\<lambda>r. if pk r = pk c then c else r) (carts s)))"
        using assms others by (intro replace_row_keys) (simp_all add: cart_table_ok_def)
      ultimately show ?thesis
        by (simp only: cart_table_ok_def)
    next
      case False
      have "Cart_save c s = (Inr (), s\<lparr>carts := carts s @ [c]\<rparr>)"
        unfolding Cart_save_def by (simp only: fk uniq False if_False if_True)
      then have "carts (snd (Cart_save c s)) = carts s @ [c]"
        by simp
      moreover have "cart_key c \<notin> cart_key ` set (carts s)"
      proof
        assume "cart_key c \<in> cart_key ` set (carts s)"
        then obtain r where r: "r \<in> set (carts s)" "cart_key r = cart_key c"
          by auto
        with False have "pk r \<noteq> pk c" by (metis imageI)
        with others r show False by blast
      qed
      ultimately show ?thesis
        using assms False by (simp add: cart_table_ok_def)
    qed
  qed
qed

lemma cart_erase_ok:
  "cart_table_ok (carts s) \<Longrightarrow> cart_table_ok (carts (snd (Cart_erase k s)))"
  by (simp add: cart_table_ok_def Cart_erase_def distinct_map_filter)

lemma user_delete_carts_ok:
  "cart_table_ok (carts s) \<Longrightarrow> cart_table_ok (carts (snd (User_delete u s)))"
  by (simp add: cart_table_ok_def User_delete_def Let_def distinct_map_filter)

lemma apply_cart_op_ok:
  "cart_table_ok (carts s) \<Longrightarrow> cart_table_ok (carts (apply_cart_op x s))"
  by (cases x) (simp_all add: cart_save_ok cart_erase_ok user_delete_carts_ok)

lemma run_cart_ops_ok:
  "cart_table_ok (carts s) \<Longrightarrow> cart_table_ok (carts (run_cart_ops xs s))"
  by (induction xs arbitrary: s) (simp_all add: apply_cart_op_ok)

lemma distinct_key_filter_le_1:
  "distinct (map f t) \<Longrightarrow> length (filter (\<lambda>x. f x = k \<and> P x) t) \<le> 1"
proof (induction t)
  case Nil
  then show ?case by simp
next
  case (Cons x t)
  show ?case
  proof (cases "f x = k")
    case True
    have "f x \<notin> f ` set t"
      using Cons.prems by simp
    with True have "\<forall>y \<in> set t. f y \<noteq> k" by blast
    then have "filter (\<lambda>x. f x = k \<and> P x) t = []" by (simp add: filter_empty_conv)
    then show ?thesis by simp
  next
    case False
    with Cons show ?thesis by simp
  qed
qed

text \<open>
  C8: for every user and every menu item, at most one active cart row exists for that
  pair, in every store reached from an empty cart table by any sequence of saves, physical
  removals and user deletions.
\<close>

theorem at_most_one_active_cart_row:
  assumes "carts s = []"
  shows "length (active_pair_rows u m (run_cart_ops xs s)) \<le> 1"
proof -
  have "cart_table_ok (carts s)"
    using assms by (simp add: cart_table_ok_def)
  then have "distinct (map cart_key (carts (run_cart_ops xs s)))"
    using run_cart_ops_ok [of s xs] by (simp add: cart_table_ok_def)
  then have "length (filter (\<lambda>c. cart_key c = (m, u) \<and> \<not> deleted c) (carts (run_cart_ops xs s))) \<le> 1"
    by (rule distinct_key_filter_le_1)
  moreover have "(\<lambda>c. cart_key c = (m, u) \<and> \<not> deleted c)
                   = (\<lambda>c. cart.user c = u \<and> cart.menuitem c = m \<and> \<not> deleted c)"
    by (auto simp: cart_key_def)
  ultimately show ?thesis
    by (simp add: active_pair_rows_def)
qed

theorem at_most_one_active_cart_row_witness:
  "carts (example_store\<lparr>carts := []\<rparr>) = [] \<and>
   active_pair_rows 1 1
     (run_cart_ops [Save example_cart, Save (example_cart\<lparr>pk := 2\<rparr>)]
        (example_store\<lparr>carts := []\<rparr>)) = [example_cart] \<and>
   length (active_pair_rows 1 1
     (run_cart_ops [Save example_cart, Save (example_cart\<lparr>pk := 2\<rparr>)]
        (example_store\<lparr>carts := []\<rparr>))) \<le> 1"
proof -
  have a: "carts (example_store\<lparr>carts := []\<rparr>) = []"
    by simp
  have b: "active_pair_rows 1 1
     (run_cart_ops [Save example_cart, Save (example_cart\<lparr>pk := 2\<rparr>)]
        (example_store\<lparr>carts := []\<rparr>)) = [example_cart]"
    by (simp add: active_pair_rows_def Cart_save_def cart_key_def example_store_def
        example_cart_def example_menu_item_def)
  show ?thesis
    using at_most_one_active_cart_row
      [where s = "example_store\<lparr>carts := []\<rparr>" and u = 1 and m = 1
         and xs = "[Save example_cart, Save (example_cart\<lparr>pk := 2\<rparr>)]", OF a] a b
    by simp
qed

section \<open>Soft deletion of the entities\<close>

text \<open>
  Flagging the rows with a given key keeps every key and every row with another key; a
  soft delete keeps the keys of its table whatever the write does.
\<close>

lemma flag_rows_keys:
  "map pk (map (\<lambda>r. if pk r = k then r\<lparr>deleted := True\<rparr> else r) tbl) = map pk tbl"
  by (induction tbl) auto

lemma flag_rows_frame:
  "filter (\<lambda>r. pk r \<noteq> k) (map (\<lambda>r. if pk r = k then r\<lparr>deleted := True\<rparr> else r) tbl)
     = filter (\<lambda>r. pk r \<noteq> k) tbl"
  by (induction tbl) auto

lemma soft_delete_keeps_keys:
  "map pk (snd (snd (SoftDeleteObject_delete failure self tbl))) = map pk tbl"
  by (simp add: SoftDeleteObject_delete_def flag_rows_keys split: option.split)

lemma soft_delete_flags:
  assumes "self \<in> set tbl" and "distinct (map pk tbl)"
  shows "fst (SoftDeleteObject_delete None self tbl) = Inr () \<and>
         deleted (fst (snd (SoftDeleteObject_delete None self tbl))) \<and>
         flagged_not_erased self tbl (snd (snd (SoftDeleteObject_delete None self tbl)))"
proof (cases "deleted self")
  case True
  then have same: "self\<lparr>deleted := True\<rparr> = self" by simp
  have "pk r \<noteq> pk self" if "r \<in> set tbl" "\<not> deleted r" for r
  proof
    assume "pk r = pk self"
    with assms that(1) have "r = self" by (meson distinct_map inj_on_def)
    with True that(2) show False by simp
  qed
  then have active: "\<forall>r \<in> set (objects tbl). pk r \<noteq> pk self"
    by (simp add: objects_def)
  have stored: "self\<lparr>deleted := True\<rparr> \<in> set (all_with_deleted tbl)"
    using assms(1) by (simp only: same all_with_deleted_def)
  have res: "SoftDeleteObject_delete None self tbl = (Inr (), self, tbl)"
    using True by (simp add: SoftDeleteObject_delete_def)
  from True active stored show ?thesis
    by (simp only: res flagged_not_erased_def fst_conv snd_conv simp_thms)
next
  case False
  let ?tbl' = "map (\<lambda>r. if pk r = pk self then r\<lparr>deleted := True\<rparr> else r) tbl"
  have res: "SoftDeleteObject_delete None self tbl = (Inr (), self\<lparr>deleted := True\<rparr>, ?tbl')"
    using False by (simp add: SoftDeleteObject_delete_def)
  have "self\<lparr>deleted := True\<rparr>
          \<in> (\<lambda>r. if pk r = pk self then r\<lparr>deleted := True\<rparr> else r) ` set tbl"
    using assms(1) by (rule rev_image_eqI) simp
  then have a: "self\<lparr>deleted := True\<rparr> \<in> set (all_with_deleted ?tbl')"
    by (simp add: all_with_deleted_def)
  have b: "\<forall>r \<in> set (objects ?tbl'). pk r \<noteq> pk self"
    by (auto simp: objects_def)
  from a b show ?thesis
    by (simp add: res flagged_not_erased_def flag_rows_keys flag_rows_frame)
qed

text \<open>
  C6: among the entities exactly the four other than \<open>Category\<close> are soft-deletable.
  For each of them, separately, \<open>delete\<close> never removes a row of its table, whether
  the write succeeds or not; and on a stored menu item, order, order item or cart (deleted
  already or not, in a table with distinct primary keys) a \<open>delete\<close> whose write
  succeeds returns normally and flags the record rather than erasing it: the record is
  still stored with its other fields as they were (so it can be recovered), the other
  rows are untouched, and default retrieval does not return it. Deleting a category that
  nothing references erases its row.
\<close>

theorem soft_deletion_by_entity:
  "(\<forall>m \<in> set entities. soft_deletable m = (m \<noteq> Category)) \<and>
   map pk (menu_items (snd (snd (MenuItem_delete failure mi s)))) = map pk (menu_items s) \<and>
   map pk (orders (snd (snd (Order_delete failure od s)))) = map pk (orders s) \<and>
   map pk (order_items (snd (snd (OrderItem_delete failure oi s)))) = map pk (order_items s) \<and>
   map pk (carts (snd (snd (Cart_delete failure ct s)))) = map pk (carts s) \<and>
   (mi \<in> set (menu_items s) \<and> distinct (map pk (menu_items s)) \<longrightarrow>
      fst (MenuItem_delete None mi s) = Inr () \<and>
      deleted (fst (snd (MenuItem_delete None mi s))) \<and>
      flagged_not_erased mi (menu_items s)
        (menu_items (snd (snd (MenuItem_delete None mi s))))) \<and>
   (od \<in> set (orders s) \<and> distinct (map pk (orders s)) \<longrightarrow>
      fst (Order_delete None od s) = Inr () \<and>
      deleted (fst (snd (Order_delete None od s))) \<and>
      flagged_not_erased od (orders s) (orders (snd (snd (Order_delete None od s))))) \<and>
   (oi \<in> set (order_items s) \<and> distinct (map pk (order_items s)) \<longrightarrow>
      fst (OrderItem_delete None oi s) = Inr () \<and>
      deleted (fst (snd (OrderItem_delete None oi s))) \<and>
      flagged_not_erased oi (order_items s)
        (order_items (snd (snd (OrderItem_delete None oi s))))) \<and>
   (ct \<in> set (carts s) \<and> distinct (map pk (carts s)) \<longrightarrow>
      fst (Cart_delete None ct s) = Inr () \<and>
      deleted (fst (snd (Cart_delete None ct s))) \<and>
      flagged_not_erased ct (carts s) (carts (snd (snd (Cart_delete None ct s))))) \<and>
   (\<not> category_referenced k s \<longrightarrow>
      fst (Category_delete k s) = Inr () \<and>
      k \<notin> pk ` set (categories (snd (Category_delete k s))))"
proof -
  have classes: "\<forall>m \<in> set entities. soft_deletable m = (m \<noteq> Category)"
    by (simp add: entities_def soft_deletable_def)
  have k1: "map pk (menu_items (snd (snd (MenuItem_delete failure mi s)))) = map pk (menu_items s)"
    using soft_delete_keeps_keys [of failure mi "menu_items s"]
    by (simp add: MenuItem_delete_def split_def)
  have k2: "map pk (orders (snd (snd (Order_delete failure od s)))) = map pk (orders s)"
    using soft_delete_keeps_keys [of failure od "orders s"]
    by (simp add: Order_delete_def split_def)
  have k3: "map pk (order_items (snd (snd (OrderItem_delete failure oi s))))
              = map pk (order_items s)"
    using soft_delete_keeps_keys [of failure oi "order_items s"]
    by (simp add: OrderItem_delete_def split_def)
  have k4: "map pk (carts (snd (snd (Cart_delete failure ct s)))) = map pk (carts s)"
    using soft_delete_keeps_keys [of failure ct "carts s"]
    by (simp add: Cart_delete_def split_def)
  have a: "fst (MenuItem_delete None mi s) = Inr () \<and>
           deleted (fst (snd (MenuItem_delete None mi s))) \<and>
           flagged_not_erased mi (menu_items s)
             (menu_items (snd (snd (MenuItem_delete None mi s))))"
    if "mi \<in> set (menu_items s)" "distinct (map pk (menu_items s))"
    using soft_delete_flags [OF that] by (simp add: MenuItem_delete_def split_def)
  have b: "fst (Order_delete None od s) = Inr () \<and>
           deleted (fst (snd (Order_delete None od s))) \<and>
           flagged_not_erased od (orders s) (orders (snd (snd (Order_delete None od s))))"
    if "od \<in> set (orders s)" "distinct (map pk (orders s))"
    using soft_delete_flags [OF that] by (simp add: Order_delete_def split_def)
  have c: "fst (OrderItem_delete None oi s) = Inr () \<and>
           deleted (fst (snd (OrderItem_delete None oi s))) \<and>
           flagged_not_erased oi (order_items s)
             (order_items (snd (snd (OrderItem_delete None oi s))))"
    if "oi \<in> set (order_items s)" "distinct (map pk (order_items s))"
    using soft_delete_flags [OF that] by (simp add: OrderItem_delete_def split_def)
  have d: "fst (Cart_delete None ct s) = Inr () \<and>
           deleted (fst (snd (Cart_delete None ct s))) \<and>
           flagged_not_erased ct (carts s) (carts (snd (snd (Cart_delete None ct s))))"
    if "ct \<in> set (carts s)" "distinct (map pk (carts s))"
    using soft_delete_flags [OF that] by (simp add: Cart_delete_def split_def)
  have e: "fst (Category_delete k s) = Inr () \<and>
           k \<notin> pk ` set (categories (snd (Category_delete k s)))"
    if "\<not> category_referenced k s"
    using that by (auto simp: Category_delete_def)
  from classes k1 k2 k3 k4 a b c d e show ?thesis by blast
qed

theorem soft_deletion_by_entity_witness:
  "example_menu_item \<in> set (menu_items example_store_with_item) \<and>
   example_other_order \<in> set (orders example_store_with_item) \<and>
   example_order_item \<in> set (order_items example_store_with_item) \<and>
   example_cart \<in> set (carts example_store_with_item) \<and>
   \<not> category_referenced 2 example_store_with_item \<and>
   fst (Cart_delete None example_cart example_store_with_item) = Inr () \<and>
   carts (snd (snd (Cart_delete None example_cart example_store_with_item)))
     = [example_cart\<lparr>deleted := True\<rparr>] \<and>
   objects (carts (snd (snd (Cart_delete None example_cart example_store_with_item)))) = [] \<and>
   flagged_not_erased example_other_order (orders example_store_with_item)
     (orders (snd (snd (Order_delete None example_other_order example_store_with_item)))) \<and>
   orders (snd (snd (Order_delete None example_other_order example_store_with_item)))
     = [example_own_order, example_other_order\<lparr>deleted := True\<rparr>] \<and>
   fst (Category_delete 2 example_store_with_item) = Inr () \<and>
   categories (snd (Category_delete 2 example_store_with_item)) = [example_category] \<and>
   orders example_deleted_cart_store = [] \<and>
   example_cart\<lparr>deleted := True\<rparr> \<in> set (carts example_deleted_cart_store) \<and>
   fst (Cart_delete None (example_cart\<lparr>deleted := True\<rparr>) example_deleted_cart_store)
     = Inr () \<and>
   carts (snd (snd (Cart_delete None (example_cart\<lparr>deleted := True\<rparr>)
                      example_deleted_cart_store)))
     = [example_cart\<lparr>deleted := True\<rparr>]"
proof -
  have a: "example_menu_item \<in> set (menu_items example_store_with_item)"
      "distinct (map pk (menu_items example_store_with_item))"
    by (simp_all add: example_store_with_item_def example_store_def)
  have b: "example_other_order \<in> set (orders example_store_with_item)"
      "distinct (map pk (orders example_store_with_item))"
    by (simp_all add: example_store_with_item_def example_store_def example_own_order_def
        example_other_order_def)
  have c: "example_order_item \<in> set (order_items example_store_with_item)"
      "distinct (map pk (order_items example_store_with_item))"
    by (simp_all add: example_store_with_item_def)
  have d: "example_cart \<in> set (carts example_store_with_item)"
      "distinct (map pk (carts example_store_with_item))"
    by (simp_all add: example_store_with_item_def example_store_def)
  have e: "\<not> category_referenced 2 example_store_with_item"
    by (simp add: category_referenced_def example_store_with_item_def example_store_def
        example_menu_item_def example_order_item_def)
  have f: "carts (snd (snd (Cart_delete None example_cart example_store_with_item)))
             = [example_cart\<lparr>deleted := True\<rparr>]"
    by (simp add: Cart_delete_def SoftDeleteObject_delete_def example_store_with_item_def
        example_store_def example_cart_def)
  have g: "categories (snd (Category_delete 2 example_store_with_item)) = [example_category]"
    using e by (simp add: Category_delete_def example_store_with_item_def example_store_def
        example_category_def)
  have h: "objects [example_cart\<lparr>deleted := True\<rparr>] = []"
    by (simp add: objects_def)
  have i: "orders (snd (snd (Order_delete None example_other_order example_store_with_item)))
             = [example_own_order, example_other_order\<lparr>deleted := True\<rparr>]"
    by (simp add: Order_delete_def SoftDeleteObject_delete_def example_store_with_item_def
        example_store_def example_own_order_def example_other_order_def)
  have j: "orders example_deleted_cart_store = []"
      "example_cart\<lparr>deleted := True\<rparr> \<in> set (carts example_deleted_cart_store)"
      "distinct (map pk (carts example_deleted_cart_store))"
    by (simp_all add: example_deleted_cart_store_def)
  have k: "carts (snd (snd (Cart_delete None (example_cart\<lparr>deleted := True\<rparr>)
                             example_deleted_cart_store)))
             = [example_cart\<lparr>deleted := True\<rparr>]"
    by (simp add: Cart_delete_def SoftDeleteObject_delete_def example_deleted_cart_store_def)
  show ?thesis
    using soft_deletion_by_entity
      [where s = example_store_with_item and mi = example_menu_item
         and od = example_other_order and oi = example_order_item and ct = example_cart
         and k = 2 and failure = None]
      soft_deletion_by_entity
      [where s = example_deleted_cart_store and ct = "example_cart\<lparr>deleted := True\<rparr>"
         and failure = None]
      a b c d e f g h i j k
    by simp
qed

end
